theory Spec2Isabelle
  imports Main
begin

section \<open>Python strings\<close>

text \<open>
  A Python \<open>str\<close> is a \<^typ>\<open>string\<close>. The PDB format is 7-bit ASCII, and the model of
  \<open>str.isspace\<close> and \<open>str.upper\<close> covers ASCII: a character above 127 is neither
  white space nor a letter here. A file's content is the text that Python's text layer
  hands to the program (decoded, with \<open>\n\<close> as the only line terminator); the
  encoding and the newline translation of the runtime are outside the model.
\<close>

definition isspace :: "char \<Rightarrow> bool" where
  "isspace c = (let n = (of_char c :: nat) in (9 \<le> n \<and> n \<le> 13) \<or> (28 \<le> n \<and> n \<le> 32))"

definition strip :: "string \<Rightarrow> string" where
  "strip s = rev (dropWhile isspace (rev (dropWhile isspace s)))"

definition upper_char :: "char \<Rightarrow> char" where
  "upper_char c = (let n = (of_char c :: nat) in if 97 \<le> n \<and> n \<le> 122 then char_of (n - 32) else c)"

definition upper :: "string \<Rightarrow> string" where
  "upper s = map upper_char s"

definition startswith :: "string \<Rightarrow> string \<Rightarrow> bool" where
  "startswith s p = (take (length p) s = p)"

text \<open>\<open>s[i:j]\<close> for \<open>0 \<le> i \<le> j\<close>: the slice is cut at the end of the string.\<close>

definition slice :: "string \<Rightarrow> nat \<Rightarrow> nat \<Rightarrow> string" where
  "slice s i j = take (j - i) (drop i s)"

text \<open>Iterating over a text file yields its lines, each with its terminator.\<close>

fun file_lines :: "string \<Rightarrow> string list" where
  "file_lines [] = []"
| "file_lines (c # cs) =
     (if c = CHR 0x0A then [c] # file_lines cs
      else (case file_lines cs of [] \<Rightarrow> [[c]] | l # ls \<Rightarrow> (c # l) # ls))"

section \<open>Exceptions\<close>

text \<open>
  Both failures that \<open>proteinprep.py\<close> raises itself are \<open>RuntimeError\<close>s, told apart
  by their message. Opening a missing file for reading raises \<open>FileNotFoundError\<close>;
  opening a file for writing succeeds in the model.
\<close>

datatype py_exception = RuntimeError string | FileNotFoundError string

definition EmptyOutputError :: py_exception where
  "EmptyOutputError =
     RuntimeError (''No ATOM/HETATM records written '' @ [CHR 0xE2, CHR 0x80, CHR 0x94]
                   @ '' check input or filters.'')"

section \<open>The cleaner\<close>

record removed_counts =
  waters :: nat
  hetero_residues :: nat
  skipped_chains :: nat

record clean_state =
  counts :: removed_counts
  fout :: string
  wrote_any :: bool

definition record_kinds :: "string list" where
  "record_kinds = [''ATOM  '', ''HETATM'', ''TER'', ''END'']"

definition is_record :: "string \<Rightarrow> bool" where
  "is_record line = list_ex (startswith line) record_kinds"

definition rec_of :: "string \<Rightarrow> string" where
  "rec_of line = strip (slice line 0 6)"

definition chain_id_of :: "string \<Rightarrow> string" where
  "chain_id_of line = (if length line \<ge> 22 then strip (slice line 21 22) else [])"

definition resname_of :: "string \<Rightarrow> string" where
  "resname_of line = (if length line \<ge> 20 then upper (strip (slice line 17 20)) else [])"

definition water_names :: "string list" where
  "water_names = [''HOH'', ''H2O'', ''WAT'']"

text \<open>The normalisation of the two keep-lists at the head of \<open>clean_pdb\<close>.\<close>

definition norm_chains :: "string list option \<Rightarrow> string list option" where
  "norm_chains keep_chains =
     (case keep_chains of None \<Rightarrow> None
      | Some cs \<Rightarrow> if cs = [] then None else Some (map (\<lambda>c. upper (strip c)) cs))"

definition norm_ligands :: "string list option \<Rightarrow> string list" where
  "norm_ligands keep_ligands =
     (case keep_ligands of None \<Rightarrow> []
      | Some ks \<Rightarrow> if ks = [] then [] else map (\<lambda>k. upper (strip k)) ks)"

text \<open>One iteration of the loop over the lines of the input.\<close>

definition clean_line ::
  "bool \<Rightarrow> bool \<Rightarrow> string list option \<Rightarrow> string list \<Rightarrow> string \<Rightarrow> clean_state \<Rightarrow> clean_state" where
  "clean_line remove_waters remove_hetero keep_chains keep_ligands line s =
     (if is_record line then
        let rec = rec_of line;
            chain_id = chain_id_of line;
            resname = resname_of line
        in if (case keep_chains of None \<Rightarrow> False | Some ks \<Rightarrow> ks \<noteq> [])
              \<and> chain_id \<noteq> [] \<and> upper chain_id \<notin> set (the keep_chains)
           then s\<lparr>counts := (counts s)\<lparr>skipped_chains := skipped_chains (counts s) + 1\<rparr>\<rparr>
           else if remove_waters \<and> resname \<in> set water_names
           then s\<lparr>counts := (counts s)\<lparr>waters := waters (counts s) + 1\<rparr>\<rparr>
           else if remove_hetero \<and> rec = ''HETATM'' \<and> resname \<notin> set keep_ligands
           then s\<lparr>counts := (counts s)\<lparr>hetero_residues := hetero_residues (counts s) + 1\<rparr>\<rparr>
           else s\<lparr>fout := fout s @ line, wrote_any := True\<rparr>
      else s)"

fun clean_loop ::
  "bool \<Rightarrow> bool \<Rightarrow> string list option \<Rightarrow> string list \<Rightarrow> string list \<Rightarrow> clean_state \<Rightarrow> clean_state" where
  "clean_loop rw rh kc kl [] s = s"
| "clean_loop rw rh kc kl (line # rest) s = clean_loop rw rh kc kl rest (clean_line rw rh kc kl line s)"

definition clean_init :: clean_state where
  "clean_init = \<lparr>counts = \<lparr>waters = 0, hetero_residues = 0, skipped_chains = 0\<rparr>,
                 fout = [], wrote_any = False\<rparr>"

text \<open>
  The file system is a map from paths to contents. \<open>clean_pdb\<close> opens the input, then
  opens the output, which truncates it, and only then reads: when both paths are the
  same file the reader finds it empty.
\<close>

type_synonym files = "string \<rightharpoonup> string"

definition clean_pdb ::
  "string \<Rightarrow> string \<Rightarrow> bool \<Rightarrow> bool \<Rightarrow> string list option \<Rightarrow> string list option
   \<Rightarrow> files \<Rightarrow> files \<times> (py_exception + removed_counts)" where
  "clean_pdb input_pdb output_pdb remove_waters remove_hetero keep_chains keep_ligands fs =
     (let kc = norm_chains keep_chains;
          kl = norm_ligands keep_ligands
      in case fs input_pdb of
           None \<Rightarrow> (fs, Inl (FileNotFoundError input_pdb))
         | Some _ \<Rightarrow>
             let fs1 = fs(output_pdb \<mapsto> []);
                 s = clean_loop remove_waters remove_hetero kc kl
                       (file_lines (the (fs1 input_pdb))) clean_init;
                 fs2 = fs1(output_pdb \<mapsto> fout s)
             in if \<not> wrote_any s then (fs2, Inl EmptyOutputError)
                else (fs2, Inr (counts s)))"


text \<open>
  The three filter predicates and the verdict on a line, as the specification words them:
  chain exclusion, then water exclusion, then heteroatom exclusion, the first match
  deciding. \<open>clean_loop\<close> is compared with them below.
\<close>

datatype verdict = NotRecord | DropChain | DropWater | DropHetero | Keep

definition chain_excluded :: "string list option \<Rightarrow> string \<Rightarrow> bool" where
  "chain_excluded kc line =
     (case kc of None \<Rightarrow> False
      | Some ks \<Rightarrow> ks \<noteq> [] \<and> chain_id_of line \<noteq> [] \<and> upper (chain_id_of line) \<notin> set ks)"

definition water_excluded :: "bool \<Rightarrow> string \<Rightarrow> bool" where
  "water_excluded rw line = (rw \<and> resname_of line \<in> set water_names)"

definition hetero_excluded :: "bool \<Rightarrow> string list \<Rightarrow> string \<Rightarrow> bool" where
  "hetero_excluded rh kl line = (rh \<and> rec_of line = ''HETATM'' \<and> resname_of line \<notin> set kl)"

definition verdict_of ::
  "bool \<Rightarrow> bool \<Rightarrow> string list option \<Rightarrow> string list \<Rightarrow> string \<Rightarrow> verdict" where
  "verdict_of rw rh kc kl line =
     (if \<not> is_record line then NotRecord
      else if chain_excluded kc line then DropChain
      else if water_excluded rw line then DropWater
      else if hetero_excluded rh kl line then DropHetero
      else Keep)"

definition tally ::
  "bool \<Rightarrow> bool \<Rightarrow> string list option \<Rightarrow> string list \<Rightarrow> verdict \<Rightarrow> string list \<Rightarrow> nat" where
  "tally rw rh kc kl v ls = length (filter (\<lambda>l. verdict_of rw rh kc kl l = v) ls)"

definition kept ::
  "bool \<Rightarrow> bool \<Rightarrow> string list option \<Rightarrow> string list \<Rightarrow> string list \<Rightarrow> string list" where
  "kept rw rh kc kl ls = filter (\<lambda>l. verdict_of rw rh kc kl l = Keep) ls"

text \<open>What the lines of a text file look like: all end in a newline, but perhaps the last.\<close>

definition terminated :: "string \<Rightarrow> bool" where
  "terminated l = (l \<noteq> [] \<and> last l = CHR 0x0A \<and> CHR 0x0A \<notin> set (butlast l))"

definition unterminated :: "string \<Rightarrow> bool" where
  "unterminated l = (l \<noteq> [] \<and> CHR 0x0A \<notin> set l)"

fun well_lines :: "string list \<Rightarrow> bool" where
  "well_lines [] = True"
| "well_lines [l] = (terminated l \<or> unterminated l)"
| "well_lines (l # l' # ls) = (terminated l \<and> well_lines (l' # ls))"

section \<open>The world outside the program\<close>

text \<open>
  The report of a target is a Python dict with string keys; the helpers return a dict
  with the fixed keys \<open>cmd\<close>, \<open>rc\<close> and \<open>output\<close> (here \<open>output_text\<close>).
\<close>

record tool_result =
  cmd :: string
  rc :: int
  output_text :: string

datatype jvalue = JStr string | JRemoved removed_counts | JTool tool_result

type_synonym report = "string \<rightharpoonup> jvalue"

datatype tool = ProtonationTool | HydrogenAddTool | FormatConvertTool

text \<open>
  The state that the program changes or observes: the files, the number of network
  calls made, the seconds slept, the external commands run (with the helper that ran
  them) and the report sequences serialised, both in order. The messages printed to
  the console are not part of the model.
\<close>

record world =
  files :: files
  net_calls :: nat
  slept :: nat
  procs :: "(tool \<times> string list) list"
  dumps :: "(string \<times> report list) list"

text \<open>
  What the program cannot decide is a parameter: the outcome of the \<open>n\<close>-th network
  call (the body, or the text of the \<open>RequestException\<close>), the executables on the
  path, the exit code, captured output and file effects of the \<open>n\<close>-th external
  command, and the text \<open>json.dump\<close> produces.
\<close>

record env =
  http_get :: "nat \<Rightarrow> string \<Rightarrow> int \<Rightarrow> string + string"
  which :: "string \<Rightarrow> string option"
  subprocess_run :: "nat \<Rightarrow> string list \<Rightarrow> files \<Rightarrow> (int \<times> string) \<times> files"
  json_dump :: "report list \<Rightarrow> string"


definition pdb2pqr_available :: "env \<Rightarrow> bool" where
  "pdb2pqr_available e = (which e ''pdb2pqr'' \<noteq> None)"

section \<open>Printing\<close>

fun str_nat :: "nat \<Rightarrow> string" where
  "str_nat n = (if n < 10 then [char_of (48 + n)] else str_nat (n div 10) @ [char_of (48 + n mod 10)])"

definition str_int :: "int \<Rightarrow> string" where
  "str_int i = (if i < 0 then CHR ''-'' # str_nat (nat (- i)) else str_nat (nat i))"

definition str_exc :: "py_exception \<Rightarrow> string" where
  "str_exc e = (case e of RuntimeError m \<Rightarrow> m
     | FileNotFoundError p \<Rightarrow> ''[Errno 2] No such file or directory: '' @ [CHR 0x27] @ p @ [CHR 0x27])"

fun join_sp :: "string list \<Rightarrow> string" where
  "join_sp [] = []"
| "join_sp [x] = x"
| "join_sp (x # y # ys) = x @ '' '' @ join_sp (y # ys)"

section \<open>The retriever\<close>

definition DownloadError :: "string \<Rightarrow> int \<Rightarrow> string option \<Rightarrow> py_exception" where
  "DownloadError pdb_id retries last_err =
     RuntimeError (''Failed to download '' @ pdb_id @ '' after '' @ str_int retries
                   @ '' attempts: '' @ (case last_err of None \<Rightarrow> ''None'' | Some e \<Rightarrow> e))"

text \<open>
  The \<open>for\<close> loop over \<open>range(1, retries + 1)\<close>. Leaving the loop by \<open>return\<close> is
  \<open>Inr\<close>; running out of attempts is \<open>Inl\<close> of the last error.
\<close>

fun download_attempts ::
  "env \<Rightarrow> string \<Rightarrow> string \<Rightarrow> int \<Rightarrow> int list \<Rightarrow> string option \<Rightarrow> world
   \<Rightarrow> world \<times> (string option + unit)" where
  "download_attempts e url out_path timeout [] last_err w = (w, Inl last_err)"
| "download_attempts e url out_path timeout (attempt # rest) last_err w =
     (case http_get e (net_calls w) url timeout of
        Inr content \<Rightarrow>
          (w\<lparr>files := (files w)(out_path \<mapsto> content), net_calls := net_calls w + 1\<rparr>, Inr ())
      | Inl err \<Rightarrow>
          download_attempts e url out_path timeout rest (Some err)
            (w\<lparr>net_calls := net_calls w + 1, slept := slept w + 2\<rparr>))"

definition download_url :: "string \<Rightarrow> string" where
  "download_url pdb_id = ''https://files.rcsb.org/download/'' @ upper pdb_id @ ''.pdb''"

definition download_pdb ::
  "env \<Rightarrow> string \<Rightarrow> string \<Rightarrow> int \<Rightarrow> int \<Rightarrow> world \<Rightarrow> world \<times> (py_exception + unit)" where
  "download_pdb e pdb_id out_path retries timeout w =
     (case download_attempts e (download_url pdb_id) out_path timeout [1..retries] None w of
        (w', Inl last_err) \<Rightarrow> (w', Inl (DownloadError pdb_id retries last_err))
      | (w', Inr u) \<Rightarrow> (w', Inr ()))"

section \<open>The helpers around the external tools\<close>

definition run_tool :: "env \<Rightarrow> tool \<Rightarrow> string list \<Rightarrow> world \<Rightarrow> world \<times> (py_exception + tool_result)" where
  "run_tool e t argv w =
     (case subprocess_run e (length (procs w)) argv (files w) of
        ((returncode, stdout), fs') \<Rightarrow>
          (w\<lparr>files := fs', procs := procs w @ [(t, argv)]\<rparr>,
           Inr \<lparr>cmd = join_sp argv, rc = returncode, output_text = stdout\<rparr>))"

definition obabel_exe :: "env \<Rightarrow> string option" where
  "obabel_exe e = (case which e ''obabel'' of Some p \<Rightarrow> Some p | None \<Rightarrow> which e ''babel'')"

definition add_hydrogens_with_obabel ::
  "env \<Rightarrow> string \<Rightarrow> string \<Rightarrow> world \<Rightarrow> world \<times> (py_exception + tool_result)" where
  "add_hydrogens_with_obabel e input_file output_file w =
     (case obabel_exe e of
        None \<Rightarrow> (w, Inl (RuntimeError ''OpenBabel CLI not found.''))
      | Some exe \<Rightarrow> run_tool e HydrogenAddTool [exe, input_file, ''-O'', output_file, ''-h''] w)"

definition convert_to_pdbqt_with_obabel ::
  "env \<Rightarrow> string \<Rightarrow> string \<Rightarrow> world \<Rightarrow> world \<times> (py_exception + tool_result)" where
  "convert_to_pdbqt_with_obabel e input_file output_file w =
     (case obabel_exe e of
        None \<Rightarrow> (w, Inl (RuntimeError ''OpenBabel CLI not found.''))
      | Some exe \<Rightarrow> run_tool e FormatConvertTool [exe, input_file, ''-O'', output_file] w)"

text \<open>The pH is a float; \<open>ph\<close> is the text Python prints for it.\<close>

definition protonate_with_pdb2pqr ::
  "env \<Rightarrow> string \<Rightarrow> string \<Rightarrow> string \<Rightarrow> world \<Rightarrow> world \<times> (py_exception + tool_result)" where
  "protonate_with_pdb2pqr e input_file output_file ph w =
     (if \<not> pdb2pqr_available e then (w, Inl (RuntimeError ''PDB2PQR CLI not found.''))
      else run_tool e ProtonationTool
             [''pdb2pqr'', ''--ff=PARSE'', ''--with-ph='' @ ph, input_file, output_file] w)"

section \<open>Paths\<close>

text \<open>\<open>os.path.join\<close>, \<open>os.path.basename\<close> and the root of \<open>os.path.splitext\<close>, on POSIX.\<close>

definition path_join :: "string \<Rightarrow> string \<Rightarrow> string" where
  "path_join a b =
     (if startswith b ''/'' then b
      else if a = [] \<or> last a = CHR ''/'' then a @ b
      else a @ ''/'' @ b)"

definition basename :: "string \<Rightarrow> string" where
  "basename p = rev (takeWhile (\<lambda>c. c \<noteq> CHR ''/'') (rev p))"

definition splitext_root :: "string \<Rightarrow> string" where
  "splitext_root p =
     (if CHR ''.'' \<notin> set p then p
      else let ext = rev (takeWhile (\<lambda>c. c \<noteq> CHR ''.'') (rev p));
               root = take (length p - length ext - 1) p
           in if CHR ''/'' \<notin> set ext \<and> list_ex (\<lambda>c. c \<noteq> CHR ''.'') (basename root)
              then root else p)"

section \<open>The orchestrator\<close>

text \<open>
  The parameters of \<open>main\<close> that the loop over the targets reads. The keep-lists are
  the ones \<open>main\<close> has split at the commas; the capability flags \<open>obabel_ready\<close> and
  \<open>pdb2pqr_ready\<close>, computed before the loop, are arguments of their own.
\<close>

record options =
  out_dir :: string
  remove_waters :: bool
  remove_hetero :: bool
  keep_chain_list :: "string list option"
  keep_lig_list :: "string list option"
  add_hydrogens :: bool
  protonate :: bool
  auto_pdbqt :: bool
  ph :: string

text \<open>
  Fetch or use local: the file to clean and the label of the target. A path exists when
  it is a file of the model; directories are not modelled.
\<close>

definition resolve_target ::
  "env \<Rightarrow> options \<Rightarrow> string \<Rightarrow> world \<Rightarrow> world \<times> (py_exception + string \<times> string)" where
  "resolve_target e opts t w =
     (if files w t \<noteq> None then (w, Inr (t, splitext_root (basename t)))
      else let pdb_label = upper t;
               fetched = path_join (out_dir opts) (pdb_label @ ''.pdb'')
           in case download_pdb e pdb_label fetched 3 10 w of
                (w', Inl err) \<Rightarrow> (w', Inl err)
              | (w', Inr u) \<Rightarrow> (w', Inr (fetched, pdb_label)))"

text \<open>
  The three optional stages. Each takes and returns the report and the \<open>processed\<close>
  pointer; an exception of a helper leaves the stage as \<open>Inl\<close>.
\<close>

definition protonation_stage ::
  "env \<Rightarrow> options \<Rightarrow> bool \<Rightarrow> string \<Rightarrow> report \<times> string \<Rightarrow> world
   \<Rightarrow> world \<times> (py_exception + report \<times> string)" where
  "protonation_stage e opts pdb2pqr_ready pdb_label st w =
     (case st of (report, processed) \<Rightarrow>
        if protonate opts then
          if pdb2pqr_ready then
            let proton_file = path_join (out_dir opts) (pdb_label @ ''_final.pdb'')
            in case protonate_with_pdb2pqr e processed proton_file (ph opts) w of
                 (w', Inl err) \<Rightarrow> (w', Inl err)
               | (w', Inr pqr_res) \<Rightarrow>
                   (w', Inr (report(''protonate'' \<mapsto> JTool pqr_res),
                             if rc pqr_res = 0 then proton_file else processed))
          else (w, Inr (report(''protonate_skipped'' \<mapsto> JStr ''PDB2PQR not available''), processed))
        else (w, Inr (report, processed)))"

definition hydrogen_stage ::
  "env \<Rightarrow> options \<Rightarrow> bool \<Rightarrow> string \<Rightarrow> report \<times> string \<Rightarrow> world
   \<Rightarrow> world \<times> (py_exception + report \<times> string)" where
  "hydrogen_stage e opts obabel_ready pdb_label st w =
     (case st of (report, processed) \<Rightarrow>
        if add_hydrogens opts \<and> \<not> protonate opts then
          if obabel_ready then
            let hydrog_file = path_join (out_dir opts) (pdb_label @ ''_final.pdb'')
            in case add_hydrogens_with_obabel e processed hydrog_file w of
                 (w', Inl err) \<Rightarrow> (w', Inl err)
               | (w', Inr obres) \<Rightarrow>
                   (w', Inr (report(''add_hydrogens'' \<mapsto> JTool obres),
                             if rc obres = 0 then hydrog_file else processed))
          else (w, Inr (report(''add_hydrogens_skipped'' \<mapsto> JStr ''OpenBabel not available''), processed))
        else (w, Inr (report, processed)))"

definition pdbqt_stage ::
  "env \<Rightarrow> options \<Rightarrow> bool \<Rightarrow> string \<Rightarrow> report \<times> string \<Rightarrow> world
   \<Rightarrow> world \<times> (py_exception + report)" where
  "pdbqt_stage e opts obabel_ready pdb_label st w =
     (case st of (report, processed) \<Rightarrow>
        if auto_pdbqt opts then
          if obabel_ready then
            let pdbqt_file = path_join (out_dir opts) (pdb_label @ ''_final.pdbqt'')
            in case convert_to_pdbqt_with_obabel e processed pdbqt_file w of
                 (w', Inl err) \<Rightarrow> (w', Inl err)
               | (w', Inr obres) \<Rightarrow> (w', Inr (report(''pdbqt'' \<mapsto> JTool obres)))
          else (w, Inr (report(''pdbqt_skipped'' \<mapsto> JStr ''OpenBabel not available'')))
        else (w, Inr report))"

text \<open>The stages after cleaning, in the order of the source.\<close>

definition run_stages ::
  "env \<Rightarrow> options \<Rightarrow> bool \<Rightarrow> bool \<Rightarrow> string \<Rightarrow> report \<Rightarrow> string \<Rightarrow> world
   \<Rightarrow> world \<times> (py_exception + report)" where
  "run_stages e opts obabel_ready pdb2pqr_ready pdb_label report cleaned w =
     (case protonation_stage e opts pdb2pqr_ready pdb_label (report, cleaned) w of
        (w1, Inl err) \<Rightarrow> (w1, Inl err)
      | (w1, Inr st1) \<Rightarrow>
          (case hydrogen_stage e opts obabel_ready pdb_label st1 w1 of
             (w2, Inl err) \<Rightarrow> (w2, Inl err)
           | (w2, Inr st2) \<Rightarrow> pdbqt_stage e opts obabel_ready pdb_label st2 w2))"

text \<open>The body of the \<open>try\<close> block: \<open>Inl\<close> is the exception that reaches \<open>except\<close>.\<close>

definition process_target ::
  "env \<Rightarrow> options \<Rightarrow> bool \<Rightarrow> bool \<Rightarrow> string \<Rightarrow> world \<Rightarrow> world \<times> (py_exception + report)" where
  "process_target e opts obabel_ready pdb2pqr_ready t w =
     (case resolve_target e opts t w of
        (w1, Inl err) \<Rightarrow> (w1, Inl err)
      | (w1, Inr (fetched, pdb_label)) \<Rightarrow>
          let cleaned = path_join (out_dir opts) (pdb_label @ ''_clean.pdb'');
              report = [''input'' \<mapsto> JStr t, ''fetched'' \<mapsto> JStr fetched, ''cleaned'' \<mapsto> JStr cleaned]
          in case clean_pdb fetched cleaned (remove_waters opts) (remove_hetero opts)
                    (keep_chain_list opts) (keep_lig_list opts) (files w1) of
               (fs2, Inl err) \<Rightarrow> (w1\<lparr>files := fs2\<rparr>, Inl err)
             | (fs2, Inr removed) \<Rightarrow>
                 run_stages e opts obabel_ready pdb2pqr_ready pdb_label
                   (report(''removed'' \<mapsto> JRemoved removed)) cleaned (w1\<lparr>files := fs2\<rparr>))"

definition failure_entry :: "string \<Rightarrow> py_exception \<Rightarrow> report" where
  "failure_entry t err = [''input'' \<mapsto> JStr t, ''error'' \<mapsto> JStr (str_exc err)]"

text \<open>The loop over the targets, with the list \<open>reports\<close> it appends to.\<close>

fun main_loop ::
  "env \<Rightarrow> options \<Rightarrow> bool \<Rightarrow> bool \<Rightarrow> string list \<Rightarrow> report list \<Rightarrow> world
   \<Rightarrow> world \<times> report list" where
  "main_loop e opts obabel_ready pdb2pqr_ready [] reports w = (w, reports)"
| "main_loop e opts obabel_ready pdb2pqr_ready (t # ts) reports w =
     (case process_target e opts obabel_ready pdb2pqr_ready t w of
        (w', Inr report) \<Rightarrow> main_loop e opts obabel_ready pdb2pqr_ready ts (reports @ [report]) w'
      | (w', Inl err) \<Rightarrow>
          main_loop e opts obabel_ready pdb2pqr_ready ts (reports @ [failure_entry t err]) w')"

text \<open>The loop and the dump of the log that follows it.\<close>

definition main_report ::
  "env \<Rightarrow> options \<Rightarrow> bool \<Rightarrow> bool \<Rightarrow> string list \<Rightarrow> world \<Rightarrow> world" where
  "main_report e opts obabel_ready pdb2pqr_ready targets w =
     (case main_loop e opts obabel_ready pdb2pqr_ready targets [] w of
        (w', reports) \<Rightarrow>
          let logf = path_join (out_dir opts) ''proteinprep_log.json''
          in w'\<lparr>files := (files w')(logf \<mapsto> json_dump e reports),
                dumps := dumps w' @ [(logf, reports)]\<rparr>)"

section \<open>A sample input\<close>

definition nl :: string where
  "nl = [CHR 0x0A]"

definition sample_pdb :: string where
  "sample_pdb =
     ''HEADER    DEMO'' @ nl @
     ''ATOM      1  N   ALA A   1'' @ nl @
     ''ATOM      2  N   GLY B   2'' @ nl @
     ''HETATM    3  O   HOH A   3'' @ nl @
     ''HETATM    4 FE   HEM A   4'' @ nl @
     ''HETATM    5 ZN    ZN A   5'' @ nl @
     ''TER'' @ nl @
     ''END'' @ nl"

definition hetero_only :: string where
  "hetero_only = ''HETATM    3  O   HOH A   3'' @ nl @ ''HETATM    5 ZN    ZN A   5'' @ nl"





section \<open>Observations and sample runs of the orchestrator\<close>

definition hydrogen_runs :: "world \<Rightarrow> (tool \<times> string list) list" where
  "hydrogen_runs w = filter (\<lambda>p. fst p = HydrogenAddTool) (procs w)"

definition entry_of :: "string \<Rightarrow> py_exception + report \<Rightarrow> report" where
  "entry_of t r = (case r of Inr report \<Rightarrow> report | Inl err \<Rightarrow> failure_entry t err)"

definition demo_env :: env where
  "demo_env =
     \<lparr>http_get = (\<lambda>n url timeout. if n < 2 then Inl ''timed out'' else Inr sample_pdb),
      which = (\<lambda>p. if p = ''obabel'' then Some ''/usr/bin/obabel''
                    else if p = ''pdb2pqr'' then Some ''/usr/bin/pdb2pqr'' else None),
      subprocess_run = (\<lambda>n argv fs. ((1, ''tool failed''), fs)),
      json_dump = (\<lambda>rs. replicate (length rs) CHR ''r'')\<rparr>"

definition offline_env :: env where
  "offline_env = demo_env\<lparr>http_get := (\<lambda>n url timeout. Inl ''timed out'')\<rparr>"

definition demo_opts :: options where
  "demo_opts =
     \<lparr>out_dir = ''out'', remove_waters = True, remove_hetero = True,
      keep_chain_list = None, keep_lig_list = None,
      add_hydrogens = True, protonate = True, auto_pdbqt = True, ph = ''7.4''\<rparr>"

definition hydro_opts :: options where
  "hydro_opts = demo_opts\<lparr>protonate := False\<rparr>"

definition empty_world :: world where
  "empty_world = \<lparr>files = Map.empty, net_calls = 0, slept = 0, procs = [], dumps = []\<rparr>"

definition demo_world :: world where
  "demo_world = empty_world\<lparr>files := [''in.pdb'' \<mapsto> sample_pdb]\<rparr>"

definition protonated_world :: world where
  "protonated_world =
     \<lparr>files = [''in.pdb'' \<mapsto> sample_pdb], net_calls = 0, slept = 0,
      procs = [(ProtonationTool,
                [''pdb2pqr'', ''--ff=PARSE'', ''--with-ph=7.4'', ''out/IN_clean.pdb'', ''out/IN_final.pdb''])],
      dumps = []\<rparr>"

definition failed_result :: tool_result where
  "failed_result =
     \<lparr>cmd = ''pdb2pqr --ff=PARSE --with-ph=7.4 out/IN_clean.pdb out/IN_final.pdb'',
      rc = 1, output_text = ''tool failed''\<rparr>"

definition hydrogenated_world :: world where
  "hydrogenated_world =
     \<lparr>files = [''in.pdb'' \<mapsto> sample_pdb], net_calls = 0, slept = 0,
      procs = [(HydrogenAddTool,
                [''/usr/bin/obabel'', ''out/IN_clean.pdb'', ''-O'', ''out/IN_final.pdb'', ''-h''])],
      dumps = []\<rparr>"

definition failed_hydrogenation :: tool_result where
  "failed_hydrogenation =
     \<lparr>cmd = ''/usr/bin/obabel out/IN_clean.pdb -O out/IN_final.pdb -h'',
      rc = 1, output_text = ''tool failed''\<rparr>"

section \<open>Properties of the cleaner\<close>
lemma clean_line_verdict:
  "clean_line rw rh kc kl line s =
     (case verdict_of rw rh kc kl line of
        NotRecord \<Rightarrow> s
      | DropChain \<Rightarrow> s\<lparr>counts := (counts s)\<lparr>skipped_chains := skipped_chains (counts s) + 1\<rparr>\<rparr>
      | DropWater \<Rightarrow> s\<lparr>counts := (counts s)\<lparr>waters := waters (counts s) + 1\<rparr>\<rparr>
      | DropHetero \<Rightarrow> s\<lparr>counts := (counts s)\<lparr>hetero_residues := hetero_residues (counts s) + 1\<rparr>\<rparr>
      | Keep \<Rightarrow> s\<lparr>fout := fout s @ line, wrote_any := True\<rparr>)"
  by (cases kc)
     (simp_all add: clean_line_def verdict_of_def chain_excluded_def water_excluded_def
        hetero_excluded_def Let_def)

lemma clean_loop_refines:
  "clean_loop rw rh kc kl ls s =
     \<lparr>counts = \<lparr>waters = waters (counts s) + tally rw rh kc kl DropWater ls,
                hetero_residues = hetero_residues (counts s) + tally rw rh kc kl DropHetero ls,
                skipped_chains = skipped_chains (counts s) + tally rw rh kc kl DropChain ls\<rparr>,
      fout = fout s @ concat (kept rw rh kc kl ls),
      wrote_any = (wrote_any s \<or> kept rw rh kc kl ls \<noteq> [])\<rparr>"
proof (induction ls arbitrary: s)
  case Nil
  show ?case by (simp add: tally_def kept_def)
next
  case (Cons l ls)
  show ?case
    by (cases "verdict_of rw rh kc kl l")
       (simp_all add: Cons.IH clean_line_verdict tally_def kept_def)
qed

lemma well_lines_file_lines: "well_lines (file_lines s)"
proof (induction s)
  case Nil show ?case by simp
next
  case (Cons c cs)
  show ?case
  proof (cases "c = CHR 0x0A")
    case True
    with Cons show ?thesis by (cases "file_lines cs") (simp_all add: terminated_def)
  next
    case False
    show ?thesis
    proof (cases "file_lines cs")
      case Nil with False show ?thesis by (simp add: unterminated_def)
    next
      case (Cons l ls)
      with False Cons.IH show ?thesis
        by (cases ls) (auto simp: terminated_def unterminated_def)
    qed
  qed
qed


lemma well_lines_filter: "well_lines ls \<Longrightarrow> well_lines (filter P ls)"
proof (induction ls rule: well_lines.induct)
  case 1 show ?case by simp
next
  case (2 l) then show ?case by simp
next
  case (3 l l' ls)
  then have IH: "well_lines (filter P (l' # ls))" by simp
  show ?case
  proof (cases "P l")
    case False with IH show ?thesis by simp
  next
    case True
    show ?thesis
    proof (cases "filter P (l' # ls)")
      case Nil with True 3 show ?thesis by simp
    next
      case (Cons a as)
      with True 3 IH show ?thesis by simp
    qed
  qed
qed

lemma file_lines_unterminated: "unterminated l \<Longrightarrow> file_lines l = [l]"
proof (induction l)
  case Nil then show ?case by (simp add: unterminated_def)
next
  case (Cons c cs)
  then show ?case by (cases cs) (auto simp: unterminated_def)
qed

lemma file_lines_terminated: "terminated l \<Longrightarrow> file_lines (l @ r) = l # file_lines r"
proof (induction l)
  case Nil then show ?case by (simp add: terminated_def)
next
  case (Cons c cs)
  show ?case
  proof (cases cs)
    case Nil with Cons.prems show ?thesis by (simp add: terminated_def)
  next
    case (Cons d ds)
    with Cons.prems have "terminated cs" "c \<noteq> CHR 0x0A" by (auto simp: terminated_def)
    with Cons.IH show ?thesis by simp
  qed
qed

lemma file_lines_concat: "well_lines ls \<Longrightarrow> file_lines (concat ls) = ls"
proof (induction ls rule: well_lines.induct)
  case 1 show ?case by simp
next
  case (2 l)
  then show ?case using file_lines_terminated [of l "[]"] file_lines_unterminated [of l] by auto
next
  case (3 l l' ls)
  then show ?case by (simp add: file_lines_terminated)
qed

lemma concat_file_lines: "concat (file_lines s) = s"
  by (induction s) (auto split: list.splits)






lemma dropWhile_same_length: "length (dropWhile P xs) = length xs \<Longrightarrow> dropWhile P xs = xs"
proof -
  assume a: "length (dropWhile P xs) = length xs"
  have "length (takeWhile P xs) + length (dropWhile P xs) = length xs"
    by (metis length_append takeWhile_dropWhile_id)
  with a have "takeWhile P xs = []" by simp
  then show ?thesis by (metis append_Nil takeWhile_dropWhile_id)
qed

lemma strip_full_length: "length (strip s) = length s \<Longrightarrow> strip s = s"
proof -
  assume a: "length (strip s) = length s"
  let ?d = "dropWhile isspace s"
  have l1: "length (dropWhile isspace (rev ?d)) \<le> length ?d"
    using length_dropWhile_le [of isspace "rev ?d"] by simp
  have l2: "length ?d \<le> length s" by (rule length_dropWhile_le)
  from a l1 l2 have e2: "length ?d = length s" and e1: "length (dropWhile isspace (rev ?d)) = length (rev ?d)"
    by (simp_all add: strip_def)
  from e2 have d2: "?d = s" by (rule dropWhile_same_length)
  from e1 have "dropWhile isspace (rev ?d) = rev ?d" by (rule dropWhile_same_length)
  with d2 show ?thesis by (simp add: strip_def)
qed

lemma length_strip: "length (strip s) \<le> length s"
proof -
  have "length (dropWhile isspace (rev (dropWhile isspace s))) \<le> length (rev (dropWhile isspace s))"
    by (rule length_dropWhile_le)
  also have "\<dots> \<le> length s" by (simp add: length_dropWhile_le)
  finally show ?thesis by (simp add: strip_def)
qed

lemma rec_of_hetatm: "(rec_of line = ''HETATM'') = startswith line ''HETATM''"
proof
  assume "startswith line ''HETATM''"
  then have "slice line 0 6 = ''HETATM''" by (simp add: startswith_def slice_def eval_nat_numeral)
  moreover have "strip ''HETATM'' = ''HETATM''" by (simp add: strip_def isspace_def)
  ultimately show "rec_of line = ''HETATM''" by (simp add: rec_of_def)
next
  assume a: "rec_of line = ''HETATM''"
  then have "length (strip (take 6 line)) = 6" by (simp add: rec_of_def slice_def)
  moreover have "length (take 6 line) \<le> 6" by simp
  ultimately have "length (strip (take 6 line)) = length (take 6 line)"
    using length_strip [of "take 6 line"] by linarith
  then have "strip (take 6 line) = take 6 line" by (rule strip_full_length)
  with a have t: "take 6 line = ''HETATM''" by (simp add: rec_of_def slice_def)
  have len: "length ''HETATM'' = 6" by simp
  show "startswith line ''HETATM''" unfolding startswith_def len by (rule t)
qed







lemma clean_pdb_result:
  assumes "fs input_pdb = Some content" and "input_pdb \<noteq> output_pdb"
  shows "clean_pdb input_pdb output_pdb rw rh keep_chains keep_ligands fs =
           (fs(output_pdb \<mapsto> concat (kept rw rh (norm_chains keep_chains) (norm_ligands keep_ligands) (file_lines content))),
            if kept rw rh (norm_chains keep_chains) (norm_ligands keep_ligands) (file_lines content) = []
            then Inl EmptyOutputError
            else Inr \<lparr>waters = tally rw rh (norm_chains keep_chains) (norm_ligands keep_ligands) DropWater (file_lines content),
                      hetero_residues = tally rw rh (norm_chains keep_chains) (norm_ligands keep_ligands) DropHetero (file_lines content),
                      skipped_chains = tally rw rh (norm_chains keep_chains) (norm_ligands keep_ligands) DropChain (file_lines content)\<rparr>)"
  using assms by (simp add: clean_pdb_def clean_loop_refines clean_init_def Let_def)

lemma file_lines_kept:
  "file_lines (concat (kept rw rh kc kl (file_lines content))) = kept rw rh kc kl (file_lines content)"
  unfolding kept_def by (intro file_lines_concat well_lines_filter well_lines_file_lines)

lemma verdict_Keep:
  "(verdict_of rw rh kc kl l = Keep) =
     (is_record l \<and> \<not> chain_excluded kc l \<and> \<not> water_excluded rw l \<and> \<not> hetero_excluded rh kl l)"
  by (simp add: verdict_of_def)

text \<open>The cleaner on the sample inputs.\<close>

lemma sample_lines:
  "file_lines sample_pdb =
     [''HEADER    DEMO'' @ nl, ''ATOM      1  N   ALA A   1'' @ nl,
      ''ATOM      2  N   GLY B   2'' @ nl, ''HETATM    3  O   HOH A   3'' @ nl,
      ''HETATM    4 FE   HEM A   4'' @ nl, ''HETATM    5 ZN    ZN A   5'' @ nl,
      ''TER'' @ nl, ''END'' @ nl]"
  by (simp add: sample_pdb_def nl_def)

lemma sample_kept:
  "kept True True (norm_chains (Some [''a''])) (norm_ligands (Some [''hem''])) (file_lines sample_pdb) =
     [''ATOM      1  N   ALA A   1'' @ nl, ''HETATM    4 FE   HEM A   4'' @ nl, ''TER'' @ nl, ''END'' @ nl]"
  by code_simp

lemma sample_tally:
  "tally True True (norm_chains (Some [''a''])) (norm_ligands (Some [''hem''])) DropWater (file_lines sample_pdb) = 1"
  "tally True True (norm_chains (Some [''a''])) (norm_ligands (Some [''hem''])) DropHetero (file_lines sample_pdb) = 1"
  "tally True True (norm_chains (Some [''a''])) (norm_ligands (Some [''hem''])) DropChain (file_lines sample_pdb) = 1"
  by code_simp+

lemma hetero_only_lines:
  "file_lines hetero_only = [''HETATM    3  O   HOH A   3'' @ nl, ''HETATM    5 ZN    ZN A   5'' @ nl]"
  by (simp add: hetero_only_def nl_def)

lemma hetero_only_kept:
  "kept False False (norm_chains None) (norm_ligands None) (file_lines hetero_only) \<noteq> []"
  "kept True True (norm_chains None) (norm_ligands None) (file_lines hetero_only) = []"
  by code_simp+

lemma hetero_only_all:
  "list_all (\<lambda>l. resname_of l \<in> set water_names \<or> startswith l ''HETATM'') (file_lines hetero_only)"
  by code_simp

lemma hetero_only_run:
  "clean_pdb ''in.pdb'' ''out.pdb'' True True None None [''in.pdb'' \<mapsto> hetero_only, ''out.pdb'' \<mapsto> ''old'']
     = ([''in.pdb'' \<mapsto> hetero_only, ''out.pdb'' \<mapsto> ''old'', ''out.pdb'' \<mapsto> []], Inl EmptyOutputError)"
proof -
  have h1: "[''in.pdb'' \<mapsto> hetero_only, ''out.pdb'' \<mapsto> ''old''] ''in.pdb'' = Some hetero_only" by simp
  have h2: "''in.pdb'' \<noteq> ''out.pdb''" by simp
  show ?thesis
    by (simp add: clean_pdb_result [where input_pdb = "''in.pdb''" and content = hetero_only] hetero_only_kept(2))
qed

lemma sample_run:
  "clean_pdb ''in.pdb'' ''out.pdb'' True True (Some [''a'']) (Some [''hem'']) [''in.pdb'' \<mapsto> sample_pdb]
     = ([''in.pdb'' \<mapsto> sample_pdb,
         ''out.pdb'' \<mapsto> ''ATOM      1  N   ALA A   1'' @ nl @ ''HETATM    4 FE   HEM A   4'' @ nl
                          @ ''TER'' @ nl @ ''END'' @ nl],
        Inr \<lparr>waters = 1, hetero_residues = 1, skipped_chains = 1\<rparr>)"
  by (simp add: clean_pdb_result [where input_pdb = "''in.pdb''" and content = sample_pdb] sample_kept sample_tally)



lemma kept_Nil_iff: "(kept rw rh kc kl ls = []) = list_all (\<lambda>l. verdict_of rw rh kc kl l \<noteq> Keep) ls"
  by (simp add: kept_def filter_empty_conv list_all_iff)

lemma water_or_hetatm_dropped:
  "resname_of l \<in> set water_names \<or> startswith l ''HETATM'' \<Longrightarrow> verdict_of True True kc [] l \<noteq> Keep"
  by (auto simp: verdict_Keep water_excluded_def hetero_excluded_def rec_of_hetatm)

text \<open>
  Claim C2. \<open>clean_pdb\<close> fails with \<open>EmptyOutputError\<close> exactly when no line is
  retained, and returns the counters otherwise; an input of water and \<open>HETATM\<close> records
  only, cleaned with both removals on and no ligand to keep, fails so.
\<close>

theorem clean_pdb_empty_output_iff:
  assumes "fs input_pdb = Some content" and "input_pdb \<noteq> output_pdb"
  shows "(snd (clean_pdb input_pdb output_pdb rw rh keep_chains keep_ligands fs) = Inl EmptyOutputError)
           = (kept rw rh (norm_chains keep_chains) (norm_ligands keep_ligands) (file_lines content) = [])
       \<and> (kept rw rh (norm_chains keep_chains) (norm_ligands keep_ligands) (file_lines content) \<noteq> []
            \<longrightarrow> (\<exists>r. snd (clean_pdb input_pdb output_pdb rw rh keep_chains keep_ligands fs) = Inr r))
       \<and> (list_all (\<lambda>l. resname_of l \<in> set water_names \<or> startswith l ''HETATM'') (file_lines content)
            \<and> (keep_ligands = None \<or> keep_ligands = Some [])
            \<longrightarrow> snd (clean_pdb input_pdb output_pdb True True keep_chains keep_ligands fs) = Inl EmptyOutputError)"
proof -
  have "list_all (\<lambda>l. resname_of l \<in> set water_names \<or> startswith l ''HETATM'') (file_lines content)
        \<Longrightarrow> kept True True (norm_chains keep_chains) [] (file_lines content) = []"
    unfolding kept_Nil_iff list_all_iff using water_or_hetatm_dropped by blast
  moreover have "keep_ligands = None \<or> keep_ligands = Some [] \<Longrightarrow> norm_ligands keep_ligands = []"
    by (auto simp: norm_ligands_def)
  ultimately show ?thesis
    by (auto simp: clean_pdb_result [where fs = fs and input_pdb = input_pdb, OF assms])
qed

theorem clean_pdb_empty_output_iff_witness:
  "(\<exists>r. snd (clean_pdb ''in.pdb'' ''out.pdb'' False False None None [''in.pdb'' \<mapsto> hetero_only]) = Inr r)
   \<and> snd (clean_pdb ''in.pdb'' ''out.pdb'' True True None None [''in.pdb'' \<mapsto> hetero_only]) = Inl EmptyOutputError"
proof -
  have h1: "[''in.pdb'' \<mapsto> hetero_only] ''in.pdb'' = Some hetero_only" by simp
  have h2: "''in.pdb'' \<noteq> ''out.pdb''" by simp
  from clean_pdb_empty_output_iff [where fs = "[''in.pdb'' \<mapsto> hetero_only]" and input_pdb = "''in.pdb''",
         OF h1 h2, of False False None None]
  show ?thesis using hetero_only_kept(1) hetero_only_all by simp
qed

text \<open>
  Claim C10. When \<open>clean_pdb\<close> fails with \<open>EmptyOutputError\<close>, the output file exists
  and is empty.
\<close>

theorem clean_pdb_failure_truncates_output:
  assumes "clean_pdb input_pdb output_pdb rw rh keep_chains keep_ligands fs = (fs', Inl EmptyOutputError)"
  shows "fs' output_pdb = Some []"
proof (cases "fs input_pdb")
  case None
  with assms show ?thesis by (simp add: clean_pdb_def EmptyOutputError_def)
next
  case (Some body)
  with assms show ?thesis
    by (auto simp: clean_pdb_def Let_def clean_loop_refines clean_init_def split: if_splits)
qed

theorem clean_pdb_failure_truncates_output_witness:
  "fst (clean_pdb ''in.pdb'' ''out.pdb'' True True None None
          [''in.pdb'' \<mapsto> hetero_only, ''out.pdb'' \<mapsto> ''old'']) ''out.pdb'' = Some []"
  using clean_pdb_failure_truncates_output [OF hetero_only_run] by (simp add: hetero_only_run)

lemma kept_idem: "kept rw rh kc kl (kept rw rh kc kl ls) = kept rw rh kc kl ls"
  by (simp add: kept_def)

lemma tally_kept: "v \<noteq> Keep \<Longrightarrow> tally rw rh kc kl v (kept rw rh kc kl ls) = 0"
  by (simp add: tally_def kept_def)

text \<open>
  Claim C8. Cleaning the produced file again, with the same filters and into another
  file, succeeds, writes the same content and removes nothing.
\<close>

theorem clean_pdb_idempotent:
  assumes "clean_pdb src dst rw rh keep_chains keep_ligands fs = (fs1, Inr r)"
    and "src \<noteq> dst" and "dst \<noteq> dst2"
  shows "\<exists>out. fs1 dst = Some out \<and>
           clean_pdb dst dst2 rw rh keep_chains keep_ligands fs1
             = (fs1(dst2 \<mapsto> out), Inr \<lparr>waters = 0, hetero_residues = 0, skipped_chains = 0\<rparr>)"
proof (cases "fs src")
  case None
  with assms show ?thesis by (simp add: clean_pdb_def)
next
  case (Some body)
  let ?K = "kept rw rh (norm_chains keep_chains) (norm_ligands keep_ligands) (file_lines body)"
  from assms(1) clean_pdb_result [where fs = fs and input_pdb = src, OF Some assms(2), of rw rh keep_chains keep_ligands]
  have fs1: "fs1 = fs(dst \<mapsto> concat ?K)" and ne: "?K \<noteq> []"
    by (auto split: if_splits)
  from fs1 have out: "fs1 dst = Some (concat ?K)" by simp
  show ?thesis
    using clean_pdb_result [where fs = fs1 and input_pdb = dst, OF out assms(3), of rw rh keep_chains keep_ligands] ne out
    by (simp add: file_lines_kept kept_idem tally_kept)
qed

theorem clean_pdb_idempotent_witness:
  "clean_pdb ''out.pdb'' ''again.pdb'' True True (Some [''a'']) (Some [''hem''])
     [''in.pdb'' \<mapsto> sample_pdb,
      ''out.pdb'' \<mapsto> ''ATOM      1  N   ALA A   1'' @ nl @ ''HETATM    4 FE   HEM A   4'' @ nl
                          @ ''TER'' @ nl @ ''END'' @ nl]
   = ([''in.pdb'' \<mapsto> sample_pdb,
       ''out.pdb'' \<mapsto> ''ATOM      1  N   ALA A   1'' @ nl @ ''HETATM    4 FE   HEM A   4'' @ nl
                          @ ''TER'' @ nl @ ''END'' @ nl,
       ''again.pdb'' \<mapsto> ''ATOM      1  N   ALA A   1'' @ nl @ ''HETATM    4 FE   HEM A   4'' @ nl
                          @ ''TER'' @ nl @ ''END'' @ nl],
      Inr \<lparr>waters = 0, hetero_residues = 0, skipped_chains = 0\<rparr>)"
proof -
  have h2: "''in.pdb'' \<noteq> ''out.pdb''" by simp
  have h3: "''out.pdb'' \<noteq> ''again.pdb''" by simp
  from clean_pdb_idempotent [OF sample_run h2 h3]
  show ?thesis by auto
qed













section \<open>Properties of the retriever and the orchestrator\<close>




lemma run_tool_frame:
  "run_tool e t argv w = (w', r) \<Longrightarrow>
   dumps w' = dumps w \<and> procs w' = procs w @ [(t, argv)] \<and> net_calls w' = net_calls w \<and> slept w' = slept w
   \<and> (\<exists>res. r = Inr res)"
  by (auto simp: run_tool_def split: prod.splits)

lemma download_attempts_frame:
  "download_attempts e url out_path timeout as last_err w = (w', r) \<Longrightarrow>
   dumps w' = dumps w \<and> procs w' = procs w"
proof (induction as arbitrary: w last_err)
  case Nil
  then show ?case by simp
next
  case (Cons a as)
  show ?case
  proof (cases "http_get e (net_calls w) url timeout")
    case (Inl err)
    with Cons.prems Cons.IH [of "Some err" "w\<lparr>net_calls := net_calls w + 1, slept := slept w + 2\<rparr>"]
    show ?thesis by simp
  next
    case (Inr body)
    with Cons.prems show ?thesis by auto
  qed
qed

lemma download_pdb_frame:
  "download_pdb e pdb_id out_path retries timeout w = (w', r) \<Longrightarrow>
   dumps w' = dumps w \<and> procs w' = procs w"
  by (auto simp: download_pdb_def split: prod.splits sum.splits dest: download_attempts_frame)

lemma resolve_target_frame:
  "resolve_target e opts t w = (w', r) \<Longrightarrow> dumps w' = dumps w \<and> procs w' = procs w"
  by (auto simp: resolve_target_def Let_def split: if_splits prod.splits sum.splits
           dest: download_pdb_frame)

lemma protonation_stage_frame:
  "protonation_stage e opts ppr lbl st w = (w', r) \<Longrightarrow>
   dumps w' = dumps w \<and> hydrogen_runs w' = hydrogen_runs w"
  by (auto simp: protonation_stage_def protonate_with_pdb2pqr_def hydrogen_runs_def Let_def
           split: if_splits prod.splits sum.splits dest!: run_tool_frame)

lemma pdbqt_stage_frame:
  "pdbqt_stage e opts obr lbl st w = (w', r) \<Longrightarrow>
   dumps w' = dumps w \<and> hydrogen_runs w' = hydrogen_runs w"
  by (auto simp: pdbqt_stage_def convert_to_pdbqt_with_obabel_def hydrogen_runs_def Let_def
           split: if_splits prod.splits sum.splits option.splits dest!: run_tool_frame)

lemma hydrogen_stage_dumps:
  "hydrogen_stage e opts obr lbl st w = (w', r) \<Longrightarrow> dumps w' = dumps w"
  by (auto simp: hydrogen_stage_def add_hydrogens_with_obabel_def Let_def
           split: if_splits prod.splits sum.splits option.splits dest!: run_tool_frame)

lemma hydrogen_stage_gated:
  "protonate opts \<Longrightarrow> hydrogen_stage e opts obr lbl st w = (w, Inr st)"
  by (simp add: hydrogen_stage_def split: prod.splits)

lemma protonation_stage_keys:
  "protonation_stage e opts ppr lbl (report, p) w = (w', Inr (r, p')) \<Longrightarrow>
   k \<noteq> ''protonate'' \<Longrightarrow> k \<noteq> ''protonate_skipped'' \<Longrightarrow> r k = report k"
  by (auto simp: protonation_stage_def Let_def split: if_splits prod.splits sum.splits)

lemma hydrogen_stage_keys:
  "hydrogen_stage e opts obr lbl (report, p) w = (w', Inr (r, p')) \<Longrightarrow>
   k \<noteq> ''add_hydrogens'' \<Longrightarrow> k \<noteq> ''add_hydrogens_skipped'' \<Longrightarrow> r k = report k"
  by (auto simp: hydrogen_stage_def Let_def split: if_splits prod.splits sum.splits)

lemma pdbqt_stage_keys:
  "pdbqt_stage e opts obr lbl (report, p) w = (w', Inr r) \<Longrightarrow>
   k \<noteq> ''pdbqt'' \<Longrightarrow> k \<noteq> ''pdbqt_skipped'' \<Longrightarrow> r k = report k"
  by (auto simp: pdbqt_stage_def Let_def split: if_splits prod.splits sum.splits)

lemma run_stages_dumps:
  "run_stages e opts obr ppr lbl report cleaned w = (w', r) \<Longrightarrow> dumps w' = dumps w"
  by (auto simp: run_stages_def split: prod.splits sum.splits
           dest!: protonation_stage_frame hydrogen_stage_dumps pdbqt_stage_frame)

lemma run_stages_keys:
  assumes "run_stages e opts obr ppr lbl report cleaned w = (w', Inr r)"
    and "k \<noteq> ''protonate''" "k \<noteq> ''protonate_skipped''"
    and "k \<noteq> ''add_hydrogens''" "k \<noteq> ''add_hydrogens_skipped''"
    and "k \<noteq> ''pdbqt''" "k \<noteq> ''pdbqt_skipped''"
  shows "r k = report k"
proof -
  from assms(1) obtain w1 r1 p1 w2 r2 p2 where
    s1: "protonation_stage e opts ppr lbl (report, cleaned) w = (w1, Inr (r1, p1))" and
    s2: "hydrogen_stage e opts obr lbl (r1, p1) w1 = (w2, Inr (r2, p2))" and
    s3: "pdbqt_stage e opts obr lbl (r2, p2) w2 = (w', Inr r)"
    by (auto simp: run_stages_def split: prod.splits sum.splits)
  from protonation_stage_keys [OF s1 assms(2,3)] hydrogen_stage_keys [OF s2 assms(4,5)]
       pdbqt_stage_keys [OF s3 assms(6,7)]
  show ?thesis by simp
qed

lemma run_stages_gated:
  assumes "run_stages e opts obr ppr lbl report cleaned w = (w', r)" and "protonate opts"
  shows "hydrogen_runs w' = hydrogen_runs w"
    and "\<And>rep. r = Inr rep \<Longrightarrow> rep ''add_hydrogens'' = report ''add_hydrogens''
                 \<and> rep ''add_hydrogens_skipped'' = report ''add_hydrogens_skipped''"
proof -
  show "hydrogen_runs w' = hydrogen_runs w"
    using assms
    by (auto simp: run_stages_def hydrogen_stage_gated split: prod.splits sum.splits
             dest!: protonation_stage_frame pdbqt_stage_frame)
next
  fix rep assume r: "r = Inr rep"
  with assms(1) obtain w1 r1 p1 where
    s1: "protonation_stage e opts ppr lbl (report, cleaned) w = (w1, Inr (r1, p1))" and
    s3: "pdbqt_stage e opts obr lbl (r1, p1) w1 = (w', Inr rep)"
    by (auto simp: run_stages_def hydrogen_stage_gated [OF assms(2)] split: prod.splits sum.splits)
  have "rep ''add_hydrogens'' = r1 ''add_hydrogens''" "rep ''add_hydrogens_skipped'' = r1 ''add_hydrogens_skipped''"
    using pdbqt_stage_keys [OF s3] by simp_all
  moreover have "r1 ''add_hydrogens'' = report ''add_hydrogens''" "r1 ''add_hydrogens_skipped'' = report ''add_hydrogens_skipped''"
    using protonation_stage_keys [OF s1] by simp_all
  ultimately show "rep ''add_hydrogens'' = report ''add_hydrogens''
                 \<and> rep ''add_hydrogens_skipped'' = report ''add_hydrogens_skipped''" by simp
qed

lemma process_target_cases:
  assumes "process_target e opts obr ppr t w = (w', r)"
  obtains (resolve_fails) err where
      "resolve_target e opts t w = (w', Inl err)" "r = Inl err"
  | (clean_fails) w1 fetched lbl fs2 err where
      "resolve_target e opts t w = (w1, Inr (fetched, lbl))"
      "w' = w1\<lparr>files := fs2\<rparr>" "r = Inl err"
  | (stages) w1 fetched lbl fs2 removed where
      "resolve_target e opts t w = (w1, Inr (fetched, lbl))"
      "run_stages e opts obr ppr lbl
         ([''input'' \<mapsto> JStr t, ''fetched'' \<mapsto> JStr fetched,
           ''cleaned'' \<mapsto> JStr (path_join (out_dir opts) (lbl @ ''_clean.pdb'')),
           ''removed'' \<mapsto> JRemoved removed])
         (path_join (out_dir opts) (lbl @ ''_clean.pdb'')) (w1\<lparr>files := fs2\<rparr>) = (w', r)"
  using assms
  by (auto simp: process_target_def Let_def split: prod.splits sum.splits)

lemma process_target_dumps:
  assumes "process_target e opts obr ppr t w = (w', r)"
  shows "dumps w' = dumps w"
  using assms
proof (cases rule: process_target_cases)
  case (resolve_fails err)
  then show ?thesis by (auto dest: resolve_target_frame)
next
  case (clean_fails w1 fetched lbl fs2 err)
  then show ?thesis by (auto dest: resolve_target_frame)
next
  case (stages w1 fetched lbl fs2 removed)
  then show ?thesis by (auto dest!: resolve_target_frame run_stages_dumps)
qed

lemma process_target_keys:
  assumes "process_target e opts obr ppr t w = (w', Inr rep)"
  shows "rep ''input'' = Some (JStr t) \<and> rep ''error'' = None"
  using assms
proof (cases rule: process_target_cases)
  case (stages w1 fetched lbl fs2 removed)
  from run_stages_keys [OF stages(2), of "''input''"] run_stages_keys [OF stages(2), of "''error''"]
  show ?thesis by simp
qed simp_all

lemma process_target_gated:
  assumes "process_target e opts obr ppr t w = (w', r)" and "protonate opts"
  shows "hydrogen_runs w' = hydrogen_runs w"
    and "\<And>rep. r = Inr rep \<Longrightarrow> rep ''add_hydrogens'' = None \<and> rep ''add_hydrogens_skipped'' = None"
proof -
  show "hydrogen_runs w' = hydrogen_runs w"
    using assms(1)
  proof (cases rule: process_target_cases)
    case (resolve_fails err)
    then show ?thesis by (auto simp: hydrogen_runs_def dest: resolve_target_frame)
  next
    case (clean_fails w1 fetched lbl fs2 err)
    then show ?thesis by (auto simp: hydrogen_runs_def dest: resolve_target_frame)
  next
    case (stages w1 fetched lbl fs2 removed)
    from run_stages_gated(1) [OF stages(2) assms(2)] resolve_target_frame [OF stages(1)]
    show ?thesis by (simp add: hydrogen_runs_def)
  qed
next
  fix rep assume r: "r = Inr rep"
  from assms(1) show "rep ''add_hydrogens'' = None \<and> rep ''add_hydrogens_skipped'' = None"
  proof (cases rule: process_target_cases)
    case (stages w1 fetched lbl fs2 removed)
    from run_stages_gated(2) [OF stages(2) assms(2) r] show ?thesis by simp
  qed (simp_all add: r)
qed

lemma main_loop_step:
  "main_loop e opts obr ppr (t # ts) acc w =
     main_loop e opts obr ppr ts (acc @ [entry_of t (snd (process_target e opts obr ppr t w))])
       (fst (process_target e opts obr ppr t w))"
  by (simp add: entry_of_def split: prod.splits sum.splits)

lemma main_loop_acc:
  "main_loop e opts obr ppr ts acc w =
     (fst (main_loop e opts obr ppr ts [] w), acc @ snd (main_loop e opts obr ppr ts [] w))"
proof (induction ts arbitrary: acc w)
  case Nil
  show ?case by simp
next
  case (Cons t ts)
  let ?p = "process_target e opts obr ppr t w"
  have "main_loop e opts obr ppr (t # ts) acc w
        = main_loop e opts obr ppr ts (acc @ [entry_of t (snd ?p)]) (fst ?p)"
    by (rule main_loop_step)
  also have "\<dots> = (fst (main_loop e opts obr ppr ts [] (fst ?p)),
                    (acc @ [entry_of t (snd ?p)]) @ snd (main_loop e opts obr ppr ts [] (fst ?p)))"
    by (rule Cons.IH)
  finally have a: "main_loop e opts obr ppr (t # ts) acc w
      = (fst (main_loop e opts obr ppr ts [] (fst ?p)),
         acc @ entry_of t (snd ?p) # snd (main_loop e opts obr ppr ts [] (fst ?p)))" by simp
  have "main_loop e opts obr ppr (t # ts) [] w
        = main_loop e opts obr ppr ts ([] @ [entry_of t (snd ?p)]) (fst ?p)"
    by (rule main_loop_step)
  also have "\<dots> = (fst (main_loop e opts obr ppr ts [] (fst ?p)),
                    ([] @ [entry_of t (snd ?p)]) @ snd (main_loop e opts obr ppr ts [] (fst ?p)))"
    by (rule Cons.IH)
  finally have b: "main_loop e opts obr ppr (t # ts) [] w
      = (fst (main_loop e opts obr ppr ts [] (fst ?p)),
         entry_of t (snd ?p) # snd (main_loop e opts obr ppr ts [] (fst ?p)))" by simp
  show ?case unfolding a b by simp
qed

lemma main_loop_Cons:
  "main_loop e opts obr ppr (t # ts) [] w =
     (fst (main_loop e opts obr ppr ts [] (fst (process_target e opts obr ppr t w))),
      entry_of t (snd (process_target e opts obr ppr t w))
        # snd (main_loop e opts obr ppr ts [] (fst (process_target e opts obr ppr t w))))"
proof -
  have "main_loop e opts obr ppr (t # ts) [] w
        = main_loop e opts obr ppr ts ([] @ [entry_of t (snd (process_target e opts obr ppr t w))])
            (fst (process_target e opts obr ppr t w))"
    by (rule main_loop_step)
  also have "\<dots> = (fst (main_loop e opts obr ppr ts [] (fst (process_target e opts obr ppr t w))),
      ([] @ [entry_of t (snd (process_target e opts obr ppr t w))])
        @ snd (main_loop e opts obr ppr ts [] (fst (process_target e opts obr ppr t w))))"
    by (rule main_loop_acc)
  finally show ?thesis by simp
qed

lemma main_loop_append:
  "main_loop e opts obr ppr (pre @ post) [] w =
     (fst (main_loop e opts obr ppr post [] (fst (main_loop e opts obr ppr pre [] w))),
      snd (main_loop e opts obr ppr pre [] w)
        @ snd (main_loop e opts obr ppr post [] (fst (main_loop e opts obr ppr pre [] w))))"
proof (induction pre arbitrary: w)
  case Nil
  show ?case by simp
next
  case (Cons t pre)
  show ?case by (simp only: append_Cons main_loop_Cons Cons.IH fst_conv snd_conv)
qed

lemma main_loop_length: "length (snd (main_loop e opts obr ppr ts [] w)) = length ts"
proof (induction ts arbitrary: w)
  case Nil
  show ?case by simp
next
  case (Cons t ts)
  show ?case by (simp add: main_loop_Cons Cons.IH del: main_loop.simps)
qed

lemma entry_of_input: "entry_of t (snd (process_target e opts obr ppr t w)) ''input'' = Some (JStr t)"
proof (cases "process_target e opts obr ppr t w")
  case (Pair w' r)
  show ?thesis
  proof (cases r)
    case (Inl err)
    with Pair show ?thesis by (simp add: entry_of_def failure_entry_def)
  next
    case (Inr rep)
    with Pair process_target_keys [of e opts obr ppr t w w' rep] show ?thesis
      by (simp add: entry_of_def)
  qed
qed

lemma main_loop_inputs:
  "map (\<lambda>r. r ''input'') (snd (main_loop e opts obr ppr ts [] w)) = map (\<lambda>t. Some (JStr t)) ts"
proof (induction ts arbitrary: w)
  case Nil
  show ?case by simp
next
  case (Cons t ts)
  show ?case by (simp add: main_loop_Cons Cons.IH entry_of_input del: main_loop.simps)
qed

lemma main_loop_dumps: "dumps (fst (main_loop e opts obr ppr ts [] w)) = dumps w"
proof (induction ts arbitrary: w)
  case Nil
  show ?case by simp
next
  case (Cons t ts)
  have "dumps (fst (process_target e opts obr ppr t w)) = dumps w"
    using process_target_dumps [of e opts obr ppr t w] by (cases "process_target e opts obr ppr t w") simp
  then show ?case by (simp add: main_loop_Cons Cons.IH del: main_loop.simps)
qed

lemma main_loop_gated:
  assumes "protonate opts"
  shows "hydrogen_runs (fst (main_loop e opts obr ppr ts [] w)) = hydrogen_runs w
       \<and> list_all (\<lambda>r. r ''add_hydrogens'' = None \<and> r ''add_hydrogens_skipped'' = None)
           (snd (main_loop e opts obr ppr ts [] w))"
proof (induction ts arbitrary: w)
  case Nil
  show ?case by simp
next
  case (Cons t ts)
  obtain w' r where p: "process_target e opts obr ppr t w = (w', r)"
    by (cases "process_target e opts obr ppr t w")
  have h: "hydrogen_runs w' = hydrogen_runs w" by (rule process_target_gated(1) [OF p assms])
  have k: "entry_of t r ''add_hydrogens'' = None \<and> entry_of t r ''add_hydrogens_skipped'' = None"
  proof (cases r)
    case (Inl err)
    then show ?thesis by (simp add: entry_of_def failure_entry_def)
  next
    case (Inr rep)
    with process_target_gated(2) [OF p assms Inr] show ?thesis by (simp add: entry_of_def)
  qed
  from Cons.IH [of w'] h k p show ?case by (simp add: main_loop_Cons del: main_loop.simps)
qed

















text \<open>
  Claim C3. A batch of \<open>N\<close> targets yields \<open>N\<close> entries, entry \<open>k\<close> for target
  \<open>k\<close>. A target whose processing raises gets the entry with its input and the text of
  the exception, and the loop goes on with the next target in the world the failed one
  left; a report of a target that succeeded has no \<open>error\<close> key. After the loop the
  sequence is dumped once, whatever the outcomes.
\<close>

theorem batch_reports_every_target:
  "length (snd (main_loop e opts obabel_ready pdb2pqr_ready targets [] w)) = length targets
   \<and> map (\<lambda>r. r ''input'') (snd (main_loop e opts obabel_ready pdb2pqr_ready targets [] w))
       = map (\<lambda>t. Some (JStr t)) targets
   \<and> main_loop e opts obabel_ready pdb2pqr_ready (pre @ t # post) [] w =
       (case main_loop e opts obabel_ready pdb2pqr_ready pre [] w of (w1, rs1) \<Rightarrow>
        case process_target e opts obabel_ready pdb2pqr_ready t w1 of (w2, r) \<Rightarrow>
        case main_loop e opts obabel_ready pdb2pqr_ready post [] w2 of (w3, rs3) \<Rightarrow>
          (w3, rs1 @ [case r of Inl err \<Rightarrow> [''input'' \<mapsto> JStr t, ''error'' \<mapsto> JStr (str_exc err)]
                             | Inr report \<Rightarrow> report] @ rs3))
   \<and> (case snd (process_target e opts obabel_ready pdb2pqr_ready t w) of
         Inl err \<Rightarrow> None | Inr report \<Rightarrow> report ''error'') = None
   \<and> main_report e opts obabel_ready pdb2pqr_ready targets w =
       (fst (main_loop e opts obabel_ready pdb2pqr_ready targets [] w))
         \<lparr>files := (files (fst (main_loop e opts obabel_ready pdb2pqr_ready targets [] w)))
                     (path_join (out_dir opts) ''proteinprep_log.json''
                        \<mapsto> json_dump e (snd (main_loop e opts obabel_ready pdb2pqr_ready targets [] w))),
           dumps := dumps w @ [(path_join (out_dir opts) ''proteinprep_log.json'',
                                snd (main_loop e opts obabel_ready pdb2pqr_ready targets [] w))]\<rparr>"
proof (intro conjI)
  show "length (snd (main_loop e opts obabel_ready pdb2pqr_ready targets [] w)) = length targets"
    by (rule main_loop_length)
  show "map (\<lambda>r. r ''input'') (snd (main_loop e opts obabel_ready pdb2pqr_ready targets [] w))
       = map (\<lambda>t. Some (JStr t)) targets"
    by (rule main_loop_inputs)
  show "main_loop e opts obabel_ready pdb2pqr_ready (pre @ t # post) [] w =
       (case main_loop e opts obabel_ready pdb2pqr_ready pre [] w of (w1, rs1) \<Rightarrow>
        case process_target e opts obabel_ready pdb2pqr_ready t w1 of (w2, r) \<Rightarrow>
        case main_loop e opts obabel_ready pdb2pqr_ready post [] w2 of (w3, rs3) \<Rightarrow>
          (w3, rs1 @ [case r of Inl err \<Rightarrow> [''input'' \<mapsto> JStr t, ''error'' \<mapsto> JStr (str_exc err)]
                             | Inr report \<Rightarrow> report] @ rs3))"
    by (simp only: main_loop_append [of e opts obabel_ready pdb2pqr_ready pre "t # post" w]
                   main_loop_Cons entry_of_def failure_entry_def)
       (simp split: prod.splits del: main_loop.simps)
  show "(case snd (process_target e opts obabel_ready pdb2pqr_ready t w) of
         Inl err \<Rightarrow> None | Inr report \<Rightarrow> report ''error'') = None"
  proof (cases "process_target e opts obabel_ready pdb2pqr_ready t w")
    case (Pair w' r)
    then show ?thesis
      by (cases r) (auto dest: process_target_keys)
  qed
  show "main_report e opts obabel_ready pdb2pqr_ready targets w =
       (fst (main_loop e opts obabel_ready pdb2pqr_ready targets [] w))
         \<lparr>files := (files (fst (main_loop e opts obabel_ready pdb2pqr_ready targets [] w)))
                     (path_join (out_dir opts) ''proteinprep_log.json''
                        \<mapsto> json_dump e (snd (main_loop e opts obabel_ready pdb2pqr_ready targets [] w))),
           dumps := dumps w @ [(path_join (out_dir opts) ''proteinprep_log.json'',
                                snd (main_loop e opts obabel_ready pdb2pqr_ready targets [] w))]\<rparr>"
  proof (cases "main_loop e opts obabel_ready pdb2pqr_ready targets [] w")
    case (Pair w' reports)
    with main_loop_dumps [of e opts obabel_ready pdb2pqr_ready targets w]
    have "dumps w' = dumps w" by simp
    with Pair show ?thesis by (simp add: main_report_def Let_def)
  qed
qed

text \<open>
  Claim C4, as amended. With \<open>protonate\<close> and \<open>add_hydrogens\<close> both requested, no
  target runs the hydrogenation tool, and no entry of the batch carries a
  hydrogenation key: neither a result nor a skip reason.
\<close>

theorem hydrogenation_gated_by_protonation:
  assumes "protonate opts" and "add_hydrogens opts"
  shows "hydrogen_runs (fst (main_loop e opts obabel_ready pdb2pqr_ready targets [] w)) = hydrogen_runs w
       \<and> list_all (\<lambda>r. r ''add_hydrogens'' = None \<and> r ''add_hydrogens_skipped'' = None)
           (snd (main_loop e opts obabel_ready pdb2pqr_ready targets [] w))"
  using assms(1) by (rule main_loop_gated)

lemma offline_batch_error:
  "(snd (main_loop offline_env demo_opts True True [''in.pdb'', ''1abc''] [] demo_world) ! 1) ''error''
     = Some (JStr ''Failed to download 1ABC after 3 attempts: timed out'')"
  by code_simp

lemma offline_batch_ok:
  "(snd (main_loop offline_env demo_opts True True [''in.pdb'', ''1abc''] [] demo_world) ! 0) ''error'' = None"
  by code_simp

theorem hydrogenation_skip_not_recorded:
  "protonate demo_opts \<and> add_hydrogens demo_opts
   \<and> \<not> isl (snd (process_target demo_env demo_opts True True ''in.pdb'' demo_world))
   \<and> projr (snd (process_target demo_env demo_opts True True ''in.pdb'' demo_world)) ''add_hydrogens_skipped'' = None"
  by code_simp

theorem batch_reports_every_target_witness:
  "length (snd (main_loop offline_env demo_opts True True [''in.pdb'', ''1abc''] [] demo_world)) = 2
   \<and> map (\<lambda>r. r ''input'') (snd (main_loop offline_env demo_opts True True [''in.pdb'', ''1abc''] [] demo_world))
       = [Some (JStr ''in.pdb''), Some (JStr ''1abc'')]
   \<and> (snd (main_loop offline_env demo_opts True True [''in.pdb'', ''1abc''] [] demo_world) ! 1) ''error''
       = Some (JStr ''Failed to download 1ABC after 3 attempts: timed out'')
   \<and> dumps (main_report offline_env demo_opts True True [''in.pdb'', ''1abc''] demo_world)
       = [(''out/proteinprep_log.json'',
           snd (main_loop offline_env demo_opts True True [''in.pdb'', ''1abc''] [] demo_world))]"
proof -
  note T = batch_reports_every_target [where e = offline_env and opts = demo_opts
             and obabel_ready = True and pdb2pqr_ready = True
             and targets = "[''in.pdb'', ''1abc'']" and w = demo_world]
  have p: "path_join (out_dir demo_opts) ''proteinprep_log.json'' = ''out/proteinprep_log.json''"
    by code_simp
  have d: "dumps demo_world = []" by (simp add: demo_world_def empty_world_def)
  from T have "length (snd (main_loop offline_env demo_opts True True [''in.pdb'', ''1abc''] [] demo_world)) = 2"
    by simp
  moreover from T have "map (\<lambda>r. r ''input'') (snd (main_loop offline_env demo_opts True True [''in.pdb'', ''1abc''] [] demo_world))
       = [Some (JStr ''in.pdb''), Some (JStr ''1abc'')]"
    by simp
  moreover note offline_batch_error
  moreover from T have "dumps (main_report offline_env demo_opts True True [''in.pdb'', ''1abc''] demo_world)
       = [(''out/proteinprep_log.json'',
           snd (main_loop offline_env demo_opts True True [''in.pdb'', ''1abc''] [] demo_world))]"
    by (simp add: p d del: main_loop.simps)
  ultimately show ?thesis by (intro conjI)
qed

theorem hydrogenation_gated_by_protonation_witness:
  "hydrogen_runs (fst (main_loop demo_env demo_opts True True [''in.pdb'', ''1abc''] [] demo_world)) = []
   \<and> list_all (\<lambda>r. r ''add_hydrogens'' = None \<and> r ''add_hydrogens_skipped'' = None)
        (snd (main_loop demo_env demo_opts True True [''in.pdb'', ''1abc''] [] demo_world))"
proof -
  have h1: "protonate demo_opts" by (simp add: demo_opts_def)
  have h2: "add_hydrogens demo_opts" by (simp add: demo_opts_def)
  have z: "hydrogen_runs demo_world = []" by (simp add: hydrogen_runs_def demo_world_def empty_world_def)
  from hydrogenation_gated_by_protonation [OF h1 h2, of demo_env True True "[''in.pdb'', ''1abc'']" demo_world]
  show ?thesis unfolding z .
qed

text \<open>
  Claim C5. When the protonation tool, or the hydrogenation tool, has run, the stages
  go on with the conversion: the result of the tool is in the report, and the file the
  conversion reads is the output of the stage if the exit code is zero and the cleaned
  file otherwise. The conversion runs the converter on the file it is given.
\<close>

theorem failed_stage_keeps_processed:
  "(protonate opts \<and> pdb2pqr_ready
      \<and> protonate_with_pdb2pqr e cleaned (path_join (out_dir opts) (pdb_label @ ''_final.pdb'')) (ph opts) w
          = (w1, Inr res) \<longrightarrow>
    run_stages e opts obabel_ready pdb2pqr_ready pdb_label report cleaned w =
      pdbqt_stage e opts obabel_ready pdb_label
        (report(''protonate'' \<mapsto> JTool res),
         if rc res = 0 then path_join (out_dir opts) (pdb_label @ ''_final.pdb'') else cleaned) w1)
   \<and> (add_hydrogens opts \<and> \<not> protonate opts \<and> obabel_ready
      \<and> add_hydrogens_with_obabel e cleaned (path_join (out_dir opts) (pdb_label @ ''_final.pdb'')) w
          = (w1, Inr res) \<longrightarrow>
    run_stages e opts obabel_ready pdb2pqr_ready pdb_label report cleaned w =
      pdbqt_stage e opts obabel_ready pdb_label
        (report(''add_hydrogens'' \<mapsto> JTool res),
         if rc res = 0 then path_join (out_dir opts) (pdb_label @ ''_final.pdb'') else cleaned) w1)
   \<and> (auto_pdbqt opts \<and> obabel_ready \<and> obabel_exe e = Some exe \<longrightarrow>
    procs (fst (pdbqt_stage e opts obabel_ready pdb_label (rep, processed) w2))
      = procs w2 @ [(FormatConvertTool,
                     [exe, processed, ''-O'', path_join (out_dir opts) (pdb_label @ ''_final.pdbqt'')])]
    \<and> (\<exists>final_report. snd (pdbqt_stage e opts obabel_ready pdb_label (rep, processed) w2) = Inr final_report
          \<and> final_report ''protonate'' = rep ''protonate''
          \<and> final_report ''add_hydrogens'' = rep ''add_hydrogens''))"
proof (intro conjI impI)
  assume a: "protonate opts \<and> pdb2pqr_ready
      \<and> protonate_with_pdb2pqr e cleaned (path_join (out_dir opts) (pdb_label @ ''_final.pdb'')) (ph opts) w
          = (w1, Inr res)"
  then have "protonation_stage e opts pdb2pqr_ready pdb_label (report, cleaned) w =
      (w1, Inr (report(''protonate'' \<mapsto> JTool res),
                if rc res = 0 then path_join (out_dir opts) (pdb_label @ ''_final.pdb'') else cleaned))"
    by (simp add: protonation_stage_def Let_def)
  with a show "run_stages e opts obabel_ready pdb2pqr_ready pdb_label report cleaned w =
      pdbqt_stage e opts obabel_ready pdb_label
        (report(''protonate'' \<mapsto> JTool res),
         if rc res = 0 then path_join (out_dir opts) (pdb_label @ ''_final.pdb'') else cleaned) w1"
    by (simp add: run_stages_def hydrogen_stage_gated)
next
  assume a: "add_hydrogens opts \<and> \<not> protonate opts \<and> obabel_ready
      \<and> add_hydrogens_with_obabel e cleaned (path_join (out_dir opts) (pdb_label @ ''_final.pdb'')) w
          = (w1, Inr res)"
  then have p: "protonation_stage e opts pdb2pqr_ready pdb_label (report, cleaned) w = (w, Inr (report, cleaned))"
    by (simp add: protonation_stage_def)
  from a have "hydrogen_stage e opts obabel_ready pdb_label (report, cleaned) w =
      (w1, Inr (report(''add_hydrogens'' \<mapsto> JTool res),
                if rc res = 0 then path_join (out_dir opts) (pdb_label @ ''_final.pdb'') else cleaned))"
    by (simp add: hydrogen_stage_def Let_def)
  with p show "run_stages e opts obabel_ready pdb2pqr_ready pdb_label report cleaned w =
      pdbqt_stage e opts obabel_ready pdb_label
        (report(''add_hydrogens'' \<mapsto> JTool res),
         if rc res = 0 then path_join (out_dir opts) (pdb_label @ ''_final.pdb'') else cleaned) w1"
    by (simp add: run_stages_def)
next
  assume a: "auto_pdbqt opts \<and> obabel_ready \<and> obabel_exe e = Some exe"
  let ?argv = "[exe, processed, ''-O'', path_join (out_dir opts) (pdb_label @ ''_final.pdbqt'')]"
  obtain w3 r where rt: "run_tool e FormatConvertTool ?argv w2 = (w3, r)"
    by (cases "run_tool e FormatConvertTool ?argv w2")
  from run_tool_frame [OF rt] obtain cres where fr: "procs w3 = procs w2 @ [(FormatConvertTool, ?argv)]"
    and r: "r = Inr cres" by blast
  from a rt r have st: "pdbqt_stage e opts obabel_ready pdb_label (rep, processed) w2
      = (w3, Inr (rep(''pdbqt'' \<mapsto> JTool cres)))"
    by (simp add: pdbqt_stage_def convert_to_pdbqt_with_obabel_def Let_def)
  from st fr show "procs (fst (pdbqt_stage e opts obabel_ready pdb_label (rep, processed) w2))
      = procs w2 @ [(FormatConvertTool, ?argv)]" by simp
  from st show "\<exists>final_report. snd (pdbqt_stage e opts obabel_ready pdb_label (rep, processed) w2) = Inr final_report
          \<and> final_report ''protonate'' = rep ''protonate''
          \<and> final_report ''add_hydrogens'' = rep ''add_hydrogens''" by simp
qed

lemma demo_hydrogenation:
  "add_hydrogens_with_obabel demo_env ''out/IN_clean.pdb''
     (path_join (out_dir hydro_opts) (''IN'' @ ''_final.pdb'')) demo_world
   = (hydrogenated_world, Inr failed_hydrogenation)"
  by (simp add: add_hydrogens_with_obabel_def obabel_exe_def run_tool_def demo_env_def
        hydro_opts_def demo_opts_def demo_world_def empty_world_def hydrogenated_world_def
        failed_hydrogenation_def path_join_def startswith_def)

lemma demo_protonation:
  "protonate_with_pdb2pqr demo_env ''out/IN_clean.pdb''
     (path_join (out_dir demo_opts) (''IN'' @ ''_final.pdb'')) (ph demo_opts) demo_world
   = (protonated_world, Inr failed_result)"
  by (simp add: protonate_with_pdb2pqr_def pdb2pqr_available_def run_tool_def demo_env_def
        demo_opts_def demo_world_def empty_world_def protonated_world_def failed_result_def
        path_join_def startswith_def)

theorem failed_stage_keeps_processed_witness:
  "procs (fst (run_stages demo_env demo_opts True True ''IN'' Map.empty ''out/IN_clean.pdb'' demo_world))
     = [(ProtonationTool,
         [''pdb2pqr'', ''--ff=PARSE'', ''--with-ph=7.4'', ''out/IN_clean.pdb'', ''out/IN_final.pdb'']),
        (FormatConvertTool,
         [''/usr/bin/obabel'', ''out/IN_clean.pdb'', ''-O'', ''out/IN_final.pdbqt''])]
   \<and> procs (fst (run_stages demo_env hydro_opts True True ''IN'' Map.empty ''out/IN_clean.pdb'' demo_world))
     = [(HydrogenAddTool,
         [''/usr/bin/obabel'', ''out/IN_clean.pdb'', ''-O'', ''out/IN_final.pdb'', ''-h'']),
        (FormatConvertTool,
         [''/usr/bin/obabel'', ''out/IN_clean.pdb'', ''-O'', ''out/IN_final.pdbqt''])]"
proof -
  note H = failed_stage_keeps_processed [where opts = hydro_opts and e = demo_env
      and pdb2pqr_ready = True and obabel_ready = True and cleaned = "''out/IN_clean.pdb''"
      and pdb_label = "''IN''" and w = demo_world and ?w1.0 = hydrogenated_world
      and res = failed_hydrogenation and report = Map.empty and exe = "''/usr/bin/obabel''"
      and rep = "[''add_hydrogens'' \<mapsto> JTool failed_hydrogenation]"
      and processed = "''out/IN_clean.pdb''" and ?w2.0 = hydrogenated_world]
  have g2: "add_hydrogens hydro_opts \<and> \<not> protonate hydro_opts \<and> True
      \<and> add_hydrogens_with_obabel demo_env ''out/IN_clean.pdb''
           (path_join (out_dir hydro_opts) (''IN'' @ ''_final.pdb'')) demo_world
          = (hydrogenated_world, Inr failed_hydrogenation)"
    using demo_hydrogenation by (simp add: hydro_opts_def demo_opts_def)
  have g3: "auto_pdbqt hydro_opts \<and> True \<and> obabel_exe demo_env = Some ''/usr/bin/obabel''"
    by (simp add: hydro_opts_def demo_opts_def obabel_exe_def demo_env_def)
  have hrc: "rc failed_hydrogenation \<noteq> 0" by (simp add: failed_hydrogenation_def)
  have hj: "path_join (out_dir hydro_opts) (''IN'' @ ''_final.pdbqt'') = ''out/IN_final.pdbqt''"
    by code_simp
  from H [THEN conjunct2, THEN conjunct1, THEN mp, OF g2] hrc
  have hs: "run_stages demo_env hydro_opts True True ''IN'' Map.empty ''out/IN_clean.pdb'' demo_world =
      pdbqt_stage demo_env hydro_opts True ''IN''
        ([''add_hydrogens'' \<mapsto> JTool failed_hydrogenation], ''out/IN_clean.pdb'') hydrogenated_world"
    by simp
  from H [THEN conjunct2, THEN conjunct2, THEN mp, OF g3, THEN conjunct1]
  have hp: "procs (fst (pdbqt_stage demo_env hydro_opts True ''IN''
                 ([''add_hydrogens'' \<mapsto> JTool failed_hydrogenation], ''out/IN_clean.pdb'') hydrogenated_world))
      = procs hydrogenated_world @ [(FormatConvertTool,
           [''/usr/bin/obabel'', ''out/IN_clean.pdb'', ''-O'', ''out/IN_final.pdbqt''])]"
    unfolding hj .
  note T = failed_stage_keeps_processed [where opts = demo_opts and e = demo_env
      and pdb2pqr_ready = True and obabel_ready = True and cleaned = "''out/IN_clean.pdb''"
      and pdb_label = "''IN''" and w = demo_world and ?w1.0 = protonated_world
      and res = failed_result and report = Map.empty and exe = "''/usr/bin/obabel''"
      and rep = "[''protonate'' \<mapsto> JTool failed_result]" and processed = "''out/IN_clean.pdb''"
      and ?w2.0 = protonated_world]
  have h1: "protonate demo_opts \<and> True
      \<and> protonate_with_pdb2pqr demo_env ''out/IN_clean.pdb''
           (path_join (out_dir demo_opts) (''IN'' @ ''_final.pdb'')) (ph demo_opts) demo_world
          = (protonated_world, Inr failed_result)"
    using demo_protonation by (simp add: demo_opts_def)
  have h3: "auto_pdbqt demo_opts \<and> True \<and> obabel_exe demo_env = Some ''/usr/bin/obabel''"
    by (simp add: demo_opts_def obabel_exe_def demo_env_def)
  have rc: "rc failed_result \<noteq> 0" by (simp add: failed_result_def)
  have j: "path_join (out_dir demo_opts) (''IN'' @ ''_final.pdbqt'') = ''out/IN_final.pdbqt''"
    by code_simp
  from T [THEN conjunct1, THEN mp, OF h1] rc
  have s: "run_stages demo_env demo_opts True True ''IN'' Map.empty ''out/IN_clean.pdb'' demo_world =
      pdbqt_stage demo_env demo_opts True ''IN''
        ([''protonate'' \<mapsto> JTool failed_result], ''out/IN_clean.pdb'') protonated_world"
    by simp
  from T [THEN conjunct2, THEN conjunct2, THEN mp, OF h3, THEN conjunct1]
  have "procs (fst (pdbqt_stage demo_env demo_opts True ''IN''
                 ([''protonate'' \<mapsto> JTool failed_result], ''out/IN_clean.pdb'') protonated_world))
      = procs protonated_world @ [(FormatConvertTool,
           [''/usr/bin/obabel'', ''out/IN_clean.pdb'', ''-O'', ''out/IN_final.pdbqt''])]"
    unfolding j .
  then show ?thesis unfolding s hs hp by (simp add: protonated_world_def hydrogenated_world_def)
qed

end
